theory Spec2Isabelle
  imports Complex_Main "HOL-Library.Sublist" "HOL-Library.State_Monad"
begin

section \<open>Python string operations\<close>

text \<open>
  Strings are read as ASCII text: a \<^typ>\<open>string\<close> is the list of its characters.
  \<open>str.lower\<close> and \<open>str.upper\<close> map the 26 ASCII letters and leave every other
  character as it is; \<open>str.isspace\<close> holds of the ASCII whitespace characters
  (tab, line feed, vertical tab, form feed, carriage return, the four separators
  0x1C..0x1F and the blank), which are the characters \<open>str.strip()\<close> and
  \<open>str.split()\<close> without arguments remove.
\<close>

definition isspace :: "char \<Rightarrow> bool" where
  "isspace c = (let n = (of_char c :: nat) in (9 \<le> n \<and> n \<le> 13) \<or> (28 \<le> n \<and> n \<le> 32))"

definition lower_char :: "char \<Rightarrow> char" where
  "lower_char c = (let n = (of_char c :: nat) in if 65 \<le> n \<and> n \<le> 90 then char_of (n + 32) else c)"

definition upper_char :: "char \<Rightarrow> char" where
  "upper_char c = (let n = (of_char c :: nat) in if 97 \<le> n \<and> n \<le> 122 then char_of (n - 32) else c)"

definition lower :: "string \<Rightarrow> string" where
  "lower s = map lower_char s"

definition upper :: "string \<Rightarrow> string" where
  "upper s = map upper_char s"

definition strip :: "string \<Rightarrow> string" where
  "strip s = rev (dropWhile isspace (rev (dropWhile isspace s)))"

text \<open>
  \<open>s.split()\<close>: the scan keeps the word read so far; a whitespace character closes a
  non-empty word and is dropped, so no token is empty.
\<close>

fun split_from :: "string \<Rightarrow> string \<Rightarrow> string list" where
  "split_from word [] = (if word = [] then [] else [word])"
| "split_from word (c # cs) =
     (if isspace c then (if word = [] then split_from [] cs else word # split_from [] cs)
      else split_from (word @ [c]) cs)"

definition split :: "string \<Rightarrow> string list" where
  "split s = split_from [] s"

text \<open>\<open>word in s\<close> on strings: \<open>word\<close> starts at some position of \<open>s\<close>.\<close>

fun contains :: "string \<Rightarrow> string \<Rightarrow> bool" where
  "contains word [] = (word = [])"
| "contains word (c # cs) = (prefix word (c # cs) \<or> contains word cs)"


section \<open>Data model\<close>

text \<open>
  The catalogs of \<open>mock_data\<close> are dictionaries of dictionaries. A product is the
  record of the keys the tools read, with every other key of the entry kept in
  \<open>p_other\<close>; an order is never read by key and stays a dictionary.
\<close>

datatype json = JNull | JBool bool | JNum rat | JStr string
  | JList "json list" | JDict "(string \<times> json) list"

record product =
  p_id :: string
  p_name :: string
  p_category :: string
  p_brand :: string
  p_description :: string
  p_price :: rat
  p_currency :: string
  p_in_stock :: bool
  p_other :: "(string \<times> json) list"

type_synonym order = "(string \<times> json) list"

record department =
  d_department :: string
  d_phone :: string
  d_email :: string
  d_hours :: string

text \<open>
  A Python \<open>dict\<close> keeps its insertion order: a catalog is the list of its items,
  \<open>.get(k)\<close> is \<^const>\<open>map_of\<close> and \<open>.values()\<close> is \<open>map snd\<close>.
\<close>

record catalogs =
  PRODUCTS :: "(string \<times> product) list"
  ORDERS :: "(string \<times> order) list"
  SUPPORT_DEPARTMENTS :: "(string \<times> department) list"

text \<open>The summary dictionary that \<open>search_products\<close> builds for a match.\<close>

record summary =
  s_id :: string
  s_name :: string
  s_category :: string
  s_price :: rat
  s_currency :: string
  s_in_stock :: bool

text \<open>A tool result is a dictionary from field names to values.\<close>

datatype pyval =
    VStr string
  | VInt int
  | VBool bool
  | VSummaries "summary list"
  | VProduct product
  | VOrder order
  | VDepartment department

type_synonym tool_result = "(string \<times> pyval) list"

datatype error = KeyError string


section \<open>Tool functions\<close>

subsection \<open>\<open>search_products\<close>\<close>

definition searchable :: "product \<Rightarrow> string" where
  "searchable product =
     lower (p_name product @ '' '' @ p_category product @ '' '' @ p_brand product @ '' '' @
            p_description product)"

definition summary_of :: "product \<Rightarrow> summary" where
  "summary_of product =
     \<lparr>s_id = p_id product, s_name = p_name product, s_category = p_category product,
      s_price = p_price product, s_currency = p_currency product,
      s_in_stock = p_in_stock product\<rparr>"

text \<open>The \<open>for product in PRODUCTS.values()\<close> loop, with the list \<open>results\<close> it appends to.\<close>

fun search_loop :: "string \<Rightarrow> string \<Rightarrow> product list \<Rightarrow> summary list \<Rightarrow> summary list" where
  "search_loop query_lower category [] results = results"
| "search_loop query_lower category (product # rest) results =
     (if category \<noteq> [] \<and> lower (p_category product) \<noteq> lower category
      then search_loop query_lower category rest results
      else if list_ex (\<lambda>word. contains word (searchable product)) (split query_lower)
      then search_loop query_lower category rest (results @ [summary_of product])
      else search_loop query_lower category rest results)"

definition search_products :: "catalogs \<Rightarrow> string \<Rightarrow> string \<Rightarrow> tool_result" where
  "search_products M query category =
     (let query_lower = lower query;
          results = search_loop query_lower category (map snd (PRODUCTS M)) []
      in if results \<noteq> []
         then [(''status'', VStr ''found''), (''count'', VInt (int (length results))),
               (''products'', VSummaries results)]
         else [(''status'', VStr ''not_found''),
               (''message'', VStr (''No products found matching '' @ [CHR 0x27] @ query @
                                   [CHR 0x27] @ ''. Try different keywords.''))])"


subsection \<open>\<open>get_product_details\<close> and \<open>check_order_status\<close>\<close>

text \<open>
  \<open>if product:\<close> tests the entry found: \<open>None\<close> is false, and so is an empty dictionary.
  A product has the keys of the record, so it is true whenever it is found; an order
  is a plain dictionary and is tested.
\<close>

definition get_product_details :: "catalogs \<Rightarrow> string \<Rightarrow> tool_result" where
  "get_product_details M product_id =
     (case map_of (PRODUCTS M) (upper product_id) of
        Some product \<Rightarrow> [(''status'', VStr ''found''), (''product'', VProduct product)]
      | None \<Rightarrow>
          [(''status'', VStr ''not_found''),
           (''message'', VStr (''Product '' @ [CHR 0x27] @ product_id @ [CHR 0x27] @
                               '' not found. Use search_products to find valid IDs.''))])"

definition order_not_found :: "string \<Rightarrow> tool_result" where
  "order_not_found order_id =
     [(''status'', VStr ''not_found''),
      (''message'', VStr (''Order '' @ [CHR 0x27] @ order_id @ [CHR 0x27] @
                          '' not found. Please check the order ID and try again. '' @
                          ''Order IDs look like ORD-XXXXX.''))]"

definition check_order_status :: "catalogs \<Rightarrow> string \<Rightarrow> tool_result" where
  "check_order_status M order_id =
     (case map_of (ORDERS M) (upper order_id) of
        Some order \<Rightarrow>
          (if order \<noteq> [] then [(''status'', VStr ''found''), (''order'', VOrder order)]
           else order_not_found order_id)
      | None \<Rightarrow> order_not_found order_id)"

subsection \<open>\<open>redirect_to_human_support\<close>\<close>

text \<open>
  The default of \<open>.get\<close> is the subscript \<open>SUPPORT_DEPARTMENTS["general"]\<close>, which is
  evaluated before the lookup of the topic and raises \<open>KeyError\<close> when the key is missing.
\<close>

definition support_message :: "department \<Rightarrow> string" where
  "support_message dept =
     ''I'm connecting you with our '' @ d_department dept @ '' team. '' @
     ''You can reach them at '' @ d_phone dept @ '' or '' @ d_email dept @ '' ('' @
     d_hours dept @ '').''"

definition redirect_to_human_support :: "catalogs \<Rightarrow> string \<Rightarrow> string \<Rightarrow> error + tool_result" where
  "redirect_to_human_support M topic reason =
     (case map_of (SUPPORT_DEPARTMENTS M) ''general'' of
        None \<Rightarrow> Inl (KeyError ''general'')
      | Some general \<Rightarrow>
          (let dept = (case map_of (SUPPORT_DEPARTMENTS M) (lower topic) of
                         Some d \<Rightarrow> d | None \<Rightarrow> general)
           in Inr [(''status'', VStr ''redirected''), (''reason'', VStr reason),
                   (''department'', VDepartment dept),
                   (''message'', VStr (support_message dept))]))"

subsection \<open>\<open>redirect_to_product_page\<close>\<close>

definition base_url :: string where
  "base_url = ''https://shop-demo.example/products''"

definition redirect_to_product_page :: "catalogs \<Rightarrow> string \<Rightarrow> string \<Rightarrow> tool_result" where
  "redirect_to_product_page M product_id action =
     (case map_of (PRODUCTS M) (upper product_id) of
        None \<Rightarrow>
          [(''status'', VStr ''not_found''),
           (''message'', VStr (''Product '' @ [CHR 0x27] @ product_id @ [CHR 0x27] @
                               '' not found.''))]
      | Some product \<Rightarrow>
          (let (url, action_label) =
                 (if lower action = ''buy''
                  then (base_url @ ''/'' @ upper product_id @ ''/checkout'', ''Purchase'')
                  else (base_url @ ''/'' @ upper product_id, ''View''))
           in [(''status'', VStr ''success''), (''action'', VStr action_label),
               (''product_name'', VStr (p_name product)), (''url'', VStr url),
               (''in_stock'', VBool (p_in_stock product))]))"

subsection \<open>The registry\<close>

text \<open>
  The five tools registered by \<open>create_agent\<close>, as the agent calls them: by name, with
  string arguments, the optional ones (\<open>category = ""\<close>, \<open>action = "view"\<close>) possibly
  left out.
\<close>

datatype tool_call =
    Search_products string "string option"
  | Get_product_details string
  | Check_order_status string
  | Redirect_to_human_support string string
  | Redirect_to_product_page string "string option"

fun call_tool :: "catalogs \<Rightarrow> tool_call \<Rightarrow> error + tool_result" where
  "call_tool M (Search_products query category) =
     Inr (search_products M query (case category of None \<Rightarrow> [] | Some c \<Rightarrow> c))"
| "call_tool M (Get_product_details product_id) = Inr (get_product_details M product_id)"
| "call_tool M (Check_order_status order_id) = Inr (check_order_status M order_id)"
| "call_tool M (Redirect_to_human_support topic reason) = redirect_to_human_support M topic reason"
| "call_tool M (Redirect_to_product_page product_id action) =
     Inr (redirect_to_product_page M product_id (case action of None \<Rightarrow> ''view'' | Some a \<Rightarrow> a))"


section \<open>The tools as computations on the module's globals\<close>

text \<open>
  \<open>PRODUCTS\<close>, \<open>ORDERS\<close> and \<open>SUPPORT_DEPARTMENTS\<close> are module-level dictionaries, and
  a Python function is free to change them. Read as a computation on these globals, a tool
  is the sequence of dictionary operations that its body performs, each of which takes
  the globals and leaves globals behind: \<open>d.values()\<close>, \<open>d.get(k)\<close>, \<open>d.get(k, default)\<close>
  and \<open>d[k]\<close>, where \<open>d\<close> names one of the three dictionaries. Everything else in the
  bodies works on strings, which are immutable, and on local values.
\<close>

type_synonym 'a py = "(catalogs, 'a) state"

definition dict_values :: "(catalogs \<Rightarrow> (string \<times> 'v) list) \<Rightarrow> 'v list py" where
  "dict_values d = do { G \<leftarrow> State_Monad.get; State_Monad.return (map snd (d G)) }"

definition dict_get :: "(catalogs \<Rightarrow> (string \<times> 'v) list) \<Rightarrow> string \<Rightarrow> 'v option py" where
  "dict_get d k = do { G \<leftarrow> State_Monad.get; State_Monad.return (map_of (d G) k) }"

definition dict_get_default :: "(catalogs \<Rightarrow> (string \<times> 'v) list) \<Rightarrow> string \<Rightarrow> 'v \<Rightarrow> 'v py" where
  "dict_get_default d k fallback_value =
     do { v \<leftarrow> dict_get d k;
          State_Monad.return (case v of Some x \<Rightarrow> x | None \<Rightarrow> fallback_value) }"

definition dict_subscript :: "(catalogs \<Rightarrow> (string \<times> 'v) list) \<Rightarrow> string \<Rightarrow> (error + 'v) py" where
  "dict_subscript d k =
     do { v \<leftarrow> dict_get d k;
          State_Monad.return (case v of Some x \<Rightarrow> Inr x | None \<Rightarrow> Inl (KeyError k)) }"

definition search_products_py :: "string \<Rightarrow> string \<Rightarrow> tool_result py" where
  "search_products_py query category =
     do { products \<leftarrow> dict_values PRODUCTS;
          let query_lower = lower query;
          let results = search_loop query_lower category products [];
          State_Monad.return
            (if results \<noteq> []
             then [(''status'', VStr ''found''), (''count'', VInt (int (length results))),
                   (''products'', VSummaries results)]
             else [(''status'', VStr ''not_found''),
                   (''message'', VStr (''No products found matching '' @ [CHR 0x27] @ query @
                                       [CHR 0x27] @ ''. Try different keywords.''))]) }"

definition get_product_details_py :: "string \<Rightarrow> tool_result py" where
  "get_product_details_py product_id =
     do { product \<leftarrow> dict_get PRODUCTS (upper product_id);
          State_Monad.return
            (case product of
               Some p \<Rightarrow> [(''status'', VStr ''found''), (''product'', VProduct p)]
             | None \<Rightarrow>
                 [(''status'', VStr ''not_found''),
                  (''message'', VStr (''Product '' @ [CHR 0x27] @ product_id @ [CHR 0x27] @
                     '' not found. Use search_products to find valid IDs.''))]) }"

definition check_order_status_py :: "string \<Rightarrow> tool_result py" where
  "check_order_status_py order_id =
     do { order \<leftarrow> dict_get ORDERS (upper order_id);
          State_Monad.return
            (case order of
               Some ord \<Rightarrow>
                 (if ord \<noteq> [] then [(''status'', VStr ''found''), (''order'', VOrder ord)]
                  else order_not_found order_id)
             | None \<Rightarrow> order_not_found order_id) }"

definition redirect_to_human_support_py :: "string \<Rightarrow> string \<Rightarrow> (error + tool_result) py" where
  "redirect_to_human_support_py topic reason =
     do { general \<leftarrow> dict_subscript SUPPORT_DEPARTMENTS ''general'';
          case general of
            Inl e \<Rightarrow> State_Monad.return (Inl e)
          | Inr g \<Rightarrow>
              do { dept \<leftarrow> dict_get_default SUPPORT_DEPARTMENTS (lower topic) g;
                   State_Monad.return
                     (Inr [(''status'', VStr ''redirected''), (''reason'', VStr reason),
                           (''department'', VDepartment dept),
                           (''message'', VStr (support_message dept))]) } }"

definition redirect_to_product_page_py :: "string \<Rightarrow> string \<Rightarrow> tool_result py" where
  "redirect_to_product_page_py product_id action =
     do { product \<leftarrow> dict_get PRODUCTS (upper product_id);
          State_Monad.return
            (case product of
               None \<Rightarrow>
                 [(''status'', VStr ''not_found''),
                  (''message'', VStr (''Product '' @ [CHR 0x27] @ product_id @ [CHR 0x27] @
                                      '' not found.''))]
             | Some p \<Rightarrow>
                 (let (url, action_label) =
                        (if lower action = ''buy''
                         then (base_url @ ''/'' @ upper product_id @ ''/checkout'', ''Purchase'')
                         else (base_url @ ''/'' @ upper product_id, ''View''))
                  in [(''status'', VStr ''success''), (''action'', VStr action_label),
                      (''product_name'', VStr (p_name p)), (''url'', VStr url),
                      (''in_stock'', VBool (p_in_stock p))])) }"

text \<open>The registry again, each call now a computation on the globals.\<close>

fun call_tool_py :: "tool_call \<Rightarrow> (error + tool_result) py" where
  "call_tool_py (Search_products query category) =
     do { r \<leftarrow> search_products_py query (case category of None \<Rightarrow> [] | Some c \<Rightarrow> c);
          State_Monad.return (Inr r) }"
| "call_tool_py (Get_product_details product_id) =
     do { r \<leftarrow> get_product_details_py product_id; State_Monad.return (Inr r) }"
| "call_tool_py (Check_order_status order_id) =
     do { r \<leftarrow> check_order_status_py order_id; State_Monad.return (Inr r) }"
| "call_tool_py (Redirect_to_human_support topic reason) =
     redirect_to_human_support_py topic reason"
| "call_tool_py (Redirect_to_product_page product_id action) =
     do { r \<leftarrow> redirect_to_product_page_py product_id
                 (case action of None \<Rightarrow> ''view'' | Some a \<Rightarrow> a);
          State_Monad.return (Inr r) }"

text \<open>Two calls of the same tool with the same arguments, one after the other.\<close>

definition call_twice :: "tool_call \<Rightarrow> ((error + tool_result) \<times> (error + tool_result)) py" where
  "call_twice c =
     do { first \<leftarrow> call_tool_py c;
          second \<leftarrow> call_tool_py c;
          State_Monad.return (first, second) }"


section \<open>Session loop\<close>

text \<open>
  \<open>runner.run_async\<close> is the agent: for a user, a session and a message it yields the
  events of the turn. An event may have a content, a content may have parts, a part
  may have a text.
\<close>

datatype part = Part (part_text: "string option")
datatype content = Content (content_parts: "part list option")
datatype event = Event (event_content: "content option")

text \<open>The inner loop \<open>for part in event.content.parts\<close>, adding to \<open>text\<close>.\<close>

fun add_parts :: "part list \<Rightarrow> string \<Rightarrow> string" where
  "add_parts [] txt = txt"
| "add_parts (p # ps) txt =
     (case part_text p of
        Some t \<Rightarrow> (if t \<noteq> [] then add_parts ps (txt @ t) else add_parts ps txt)
      | None \<Rightarrow> add_parts ps txt)"

text \<open>The outer loop \<open>async for event in runner.run_async(...)\<close>.\<close>

fun run_events :: "event list \<Rightarrow> string \<Rightarrow> string" where
  "run_events [] txt = txt"
| "run_events (e # es) txt =
     (case event_content e of
        Some (Content (Some ps)) \<Rightarrow>
          (if ps \<noteq> [] then run_events es (add_parts ps txt) else run_events es txt)
      | _ \<Rightarrow> run_events es txt)"

definition fallback :: string where
  "fallback = ''I'm sorry, I couldn't process that. Could you try rephrasing?''"

definition get_agent_response ::
  "(string \<Rightarrow> string \<Rightarrow> string \<Rightarrow> event list) \<Rightarrow> string \<Rightarrow> string \<Rightarrow> string" where
  "get_agent_response run_async session_id user_message =
     (let final_text = run_events (run_async ''web_user'' session_id user_message) []
      in if final_text \<noteq> [] then strip final_text else fallback)"


section \<open>Vocabulary of the specification\<close>

text \<open>Two strings are equal case-insensitively when their lower-case forms are equal.\<close>

definition same_ignoring_case :: "string \<Rightarrow> string \<Rightarrow> bool" where
  "same_ignoring_case a b \<longleftrightarrow> lower a = lower b"

definition has_key_ignoring_case :: "(string \<times> 'v) list \<Rightarrow> string \<Rightarrow> bool" where
  "has_key_ignoring_case d x \<longleftrightarrow> (\<exists>k \<in> set (map fst d). same_ignoring_case k x)"

text \<open>
  The catalogs of \<open>mock_data\<close> store product and order identifiers in upper case
  (\<open>AC-001\<close>, \<open>TV-001\<close>, \<open>ORD-10001\<close>) and support topics in lower case
  (\<open>returns\<close>, \<open>warranty\<close>, \<open>delivery\<close>, \<open>payment\<close>, \<open>general\<close>).
\<close>

definition keys_upper :: "(string \<times> 'v) list \<Rightarrow> bool" where
  "keys_upper d \<longleftrightarrow> (\<forall>k \<in> set (map fst d). upper k = k)"

definition keys_lower :: "(string \<times> 'v) list \<Rightarrow> bool" where
  "keys_lower d \<longleftrightarrow> (\<forall>k \<in> set (map fst d). lower k = k)"

text \<open>
  A product matches a query and a category when it passes the category filter (its
  category equals a non-empty \<open>category\<close> case-insensitively) and some token of the
  lower-cased query is a substring of its searchable string.
\<close>

definition product_matches :: "string \<Rightarrow> string \<Rightarrow> product \<Rightarrow> bool" where
  "product_matches query category product \<longleftrightarrow>
     (category \<noteq> [] \<longrightarrow> lower (p_category product) = lower category) \<and>
     (\<exists>word \<in> set (split (lower query)). sublist word (searchable product))"

text \<open>The text fragments of a turn: the texts its events carry, in the order emitted.\<close>

definition event_parts :: "event \<Rightarrow> part list" where
  "event_parts e = (case event_content e of Some (Content (Some ps)) \<Rightarrow> ps | _ \<Rightarrow> [])"

definition fragments :: "event list \<Rightarrow> string list" where
  "fragments es = concat (map (\<lambda>e. List.map_filter part_text (event_parts e)) es)"


section \<open>Sample data\<close>

text \<open>
  A small catalog in the shape of \<open>mock_data\<close>, with the identifiers that the
  docstrings of the tools give as examples, and three agents: one that answers, one that
  emits no text and one that emits a single blank.
\<close>

definition ac_001 :: product where
  "ac_001 = \<lparr>p_id = ''AC-001'', p_name = ''Polar 12000 BTU'', p_category = ''Air Conditioners'',
     p_brand = ''Polar'', p_description = ''Inverter split unit'', p_price = 499,
     p_currency = ''USD'', p_in_stock = True, p_other = []\<rparr>"

definition tv_001 :: product where
  "tv_001 = \<lparr>p_id = ''TV-001'', p_name = ''Vista 55 OLED'', p_category = ''Televisions'',
     p_brand = ''Vista'', p_description = ''4K smart TV'', p_price = 899,
     p_currency = ''USD'', p_in_stock = False,
     p_other = [(''restock_date'', JStr ''2026-01-15'')]\<rparr>"

definition returns_dept :: department where
  "returns_dept = \<lparr>d_department = ''Returns'', d_phone = ''555-0101'',
     d_email = ''returns@shop-demo.example'', d_hours = ''Mon-Fri''\<rparr>"

definition general_dept :: department where
  "general_dept = \<lparr>d_department = ''Customer Care'', d_phone = ''555-0100'',
     d_email = ''help@shop-demo.example'', d_hours = ''Mon-Sun''\<rparr>"

definition sample_catalogs :: catalogs where
  "sample_catalogs =
     \<lparr>PRODUCTS = [(''AC-001'', ac_001), (''TV-001'', tv_001)],
      ORDERS = [(''ORD-10001'', [(''status'', JStr ''shipped'')])],
      SUPPORT_DEPARTMENTS = [(''returns'', returns_dept), (''general'', general_dept)]\<rparr>"

definition talking_run :: "string \<Rightarrow> string \<Rightarrow> string \<Rightarrow> event list" where
  "talking_run user_id session_id new_message =
     [Event None, Event (Some (Content None)), Event (Some (Content (Some []))),
      Event (Some (Content (Some [Part (Some '' Hello''), Part None, Part (Some [])]))),
      Event (Some (Content (Some [Part (Some '', world. '')])))]"

definition silent_run :: "string \<Rightarrow> string \<Rightarrow> string \<Rightarrow> event list" where
  "silent_run user_id session_id new_message =
     [Event None, Event (Some (Content (Some [Part None])))]"

definition blank_run :: "string \<Rightarrow> string \<Rightarrow> string \<Rightarrow> event list" where
  "blank_run user_id session_id new_message = [Event (Some (Content (Some [Part (Some '' '')])))]"

section \<open>Properties of the string operations\<close>

lemmas str_eval = lower_def lower_char_def upper_def upper_char_def isspace_def split_def
  strip_def char_of_def bit_0

lemma upper_lower_char: "upper_char (lower_char c) = upper_char c"
  unfolding upper_char_def lower_char_def Let_def by auto

lemma lower_upper_char: "lower_char (upper_char c) = lower_char c"
  unfolding upper_char_def lower_char_def Let_def by auto

lemma isspace_lower_char: "isspace (lower_char c) = isspace c"
  unfolding isspace_def lower_char_def Let_def by auto

lemma upper_lower: "upper (lower s) = upper s"
  by (simp add: upper_def lower_def upper_lower_char)

lemma lower_upper: "lower (upper s) = lower s"
  by (simp add: upper_def lower_def lower_upper_char)

lemma upper_upper: "upper (upper s) = upper s"
  by (metis upper_lower lower_upper)

lemma lower_lower: "lower (lower s) = lower s"
  by (metis upper_lower lower_upper)

lemma same_ignoring_case_upper: "same_ignoring_case a b \<longleftrightarrow> upper a = upper b"
  unfolding same_ignoring_case_def by (metis upper_lower lower_upper)

lemma same_ignoring_case_buy: "same_ignoring_case action ''buy'' \<longleftrightarrow> lower action = ''buy''"
  by (simp add: same_ignoring_case_def lower_def lower_char_def)

lemma contains_iff_sublist: "contains w s \<longleftrightarrow> sublist w s"
  by (induction s) (auto simp: sublist_Cons_right)

text \<open>A token of \<open>split\<close> is not empty and has no whitespace in it.\<close>

lemma split_from_tokens:
  "w \<in> set (split_from word s) \<Longrightarrow> \<forall>c \<in> set word. \<not> isspace c \<Longrightarrow>
   w \<noteq> [] \<and> (\<forall>c \<in> set w. \<not> isspace c)"
proof (induction s arbitrary: word)
  case Nil
  then show ?case by (simp split: if_splits)
next
  case (Cons c cs)
  show ?case
  proof (cases "isspace c")
    case True
    with Cons.prems have "w = word \<and> word \<noteq> [] \<or> w \<in> set (split_from [] cs)"
      by (auto split: if_splits)
    then show ?thesis
    proof
      assume "w = word \<and> word \<noteq> []"
      with Cons.prems(2) show ?thesis by simp
    next
      assume "w \<in> set (split_from [] cs)"
      then show ?thesis using Cons.IH [of "[]"] by simp
    qed
  next
    case False
    with Cons.prems have "w \<in> set (split_from (word @ [c]) cs)" by simp
    moreover from False Cons.prems(2) have "\<forall>c' \<in> set (word @ [c]). \<not> isspace c'" by simp
    ultimately show ?thesis using Cons.IH [of "word @ [c]"] by blast
  qed
qed

lemma split_tokens: "w \<in> set (split s) \<Longrightarrow> w \<noteq> [] \<and> (\<forall>c \<in> set w. \<not> isspace c)"
  using split_from_tokens [of w "[]" s] by (simp add: split_def)

lemma split_from_blank: "\<forall>c \<in> set s. isspace c \<Longrightarrow> split_from [] s = []"
  by (induction s) auto

lemma split_blank: "\<forall>c \<in> set q. isspace c \<Longrightarrow> split (lower q) = []"
  by (simp add: split_def lower_def split_from_blank isspace_lower_char)

lemma strip_eq_Nil: "strip s = [] \<longleftrightarrow> (\<forall>c \<in> set s. isspace c)"
proof (cases "dropWhile isspace s = []")
  case True
  have "strip s = []" unfolding strip_def True by simp
  moreover from True have "\<forall>c \<in> set s. isspace c" by (simp add: dropWhile_eq_Nil_conv)
  ultimately show ?thesis by simp
next
  case False
  then have "hd (dropWhile isspace s) \<in> set (dropWhile isspace s)"
    and "\<not> isspace (hd (dropWhile isspace s))"
    by (simp_all add: hd_dropWhile)
  then have "\<not> (\<forall>c \<in> set (dropWhile isspace s). isspace c)" by blast
  with False show ?thesis by (auto simp: strip_def dropWhile_eq_Nil_conv)
qed

text \<open>A word without the separator that occurs in \<open>a + sep + b\<close> occurs in \<open>a + b\<close>.\<close>

lemma prefix_without_head: "prefix w (x # b) \<Longrightarrow> x \<notin> set w \<Longrightarrow> w = []"
  by (cases w) simp_all

lemma sublist_across:
  assumes "sublist w (a @ x # b)" and "x \<notin> set w"
  shows "sublist w (a @ b)"
proof -
  from assms(1) have
    "sublist w a \<or> sublist w (x # b) \<or>
     (\<exists>w1 w2. w = w1 @ w2 \<and> suffix w1 a \<and> prefix w2 (x # b))"
    by (simp only: sublist_append)
  then consider "sublist w a" | "sublist w (x # b)"
    | w1 w2 where "w = w1 @ w2" "suffix w1 a" "prefix w2 (x # b)"
    by blast
  then show ?thesis
  proof cases
    case 1
    then show ?thesis by (simp add: sublist_append)
  next
    case 2
    then have "prefix w (x # b) \<or> sublist w b" by (simp only: sublist_Cons_right)
    then show ?thesis
    proof
      assume "prefix w (x # b)"
      then have "w = []" using assms(2) by (rule prefix_without_head)
      then show ?thesis by simp
    next
      assume "sublist w b"
      then show ?thesis by (simp add: sublist_append)
    qed
  next
    case 3
    from 3(1) assms(2) have "x \<notin> set w2" by simp
    with 3(3) have "w2 = []" by (simp add: prefix_without_head)
    with 3 have "suffix w a" by simp
    then have "sublist w a" by (rule suffix_imp_sublist)
    then show ?thesis by (simp add: sublist_append)
  qed
qed


section \<open>Properties of the catalogs\<close>

lemma map_of_key: "map_of d k = Some v \<Longrightarrow> k \<in> set (map fst d)"
  by (metis map_of_eq_None_iff option.distinct(1) set_map)

lemma has_key_upper:
  assumes "keys_upper d"
  shows "has_key_ignoring_case d x \<longleftrightarrow> map_of d (upper x) \<noteq> None"
proof
  assume "has_key_ignoring_case d x"
  then obtain k where k: "k \<in> set (map fst d)" "same_ignoring_case k x"
    unfolding has_key_ignoring_case_def by blast
  with assms have "upper x = k" unfolding keys_upper_def by (metis same_ignoring_case_upper)
  with k show "map_of d (upper x) \<noteq> None" by (simp add: map_of_eq_None_iff)
next
  assume "map_of d (upper x) \<noteq> None"
  then have "upper x \<in> set (map fst d)" by (simp add: map_of_eq_None_iff)
  moreover have "same_ignoring_case (upper x) x"
    by (simp add: same_ignoring_case_def lower_upper)
  ultimately show "has_key_ignoring_case d x" unfolding has_key_ignoring_case_def by blast
qed

lemma has_key_lower:
  assumes "keys_lower d"
  shows "has_key_ignoring_case d x \<longleftrightarrow> map_of d (lower x) \<noteq> None"
proof
  assume "has_key_ignoring_case d x"
  then obtain k where k: "k \<in> set (map fst d)" "same_ignoring_case k x"
    unfolding has_key_ignoring_case_def by blast
  with assms have "lower x = k" unfolding keys_lower_def by (metis same_ignoring_case_def)
  with k show "map_of d (lower x) \<noteq> None" by (simp add: map_of_eq_None_iff)
next
  assume "map_of d (lower x) \<noteq> None"
  then have "lower x \<in> set (map fst d)" by (simp add: map_of_eq_None_iff)
  moreover have "same_ignoring_case (lower x) x"
    by (simp add: same_ignoring_case_def lower_lower)
  ultimately show "has_key_ignoring_case d x" unfolding has_key_ignoring_case_def by blast
qed

lemma sample_keys_upper: "keys_upper (PRODUCTS sample_catalogs)"
  by (simp add: keys_upper_def sample_catalogs_def str_eval)

lemma sample_keys_lower: "keys_lower (SUPPORT_DEPARTMENTS sample_catalogs)"
  by (simp add: keys_lower_def sample_catalogs_def str_eval)

lemma sample_general:
  "map_of (SUPPORT_DEPARTMENTS sample_catalogs) ''general'' = Some general_dept"
  by (simp add: sample_catalogs_def)


section \<open>The search loop\<close>

lemma search_loop_filter:
  "search_loop (lower q) c ps acc = acc @ map summary_of (filter (product_matches q c) ps)"
  by (induction ps arbitrary: acc)
     (auto simp: product_matches_def list_ex_iff contains_iff_sublist)

lemma search_products_eq:
  "search_products M q c =
     (let ms = filter (product_matches q c) (map snd (PRODUCTS M)) in
      if ms \<noteq> []
      then [(''status'', VStr ''found''), (''count'', VInt (int (length ms))),
            (''products'', VSummaries (map summary_of ms))]
      else [(''status'', VStr ''not_found''),
            (''message'', VStr (''No products found matching '' @ [CHR 0x27] @ q @
                                [CHR 0x27] @ ''. Try different keywords.''))])"
  by (simp add: search_products_def search_loop_filter Let_def)

lemma isspace_blank: "isspace CHR '' ''"
  by (simp add: isspace_def)

lemma lower_char_blank: "lower_char CHR '' '' = CHR '' ''"
  by (simp add: lower_char_def)

lemma token_in_fields:
  assumes w: "w \<in> set (split q)"
    and sub: "sublist w (searchable p)"
  shows "sublist w (lower (p_name p @ p_category p @ p_brand p @ p_description p))"
proof -
  from w have "\<forall>c \<in> set w. \<not> isspace c" by (simp add: split_tokens)
  with isspace_blank have blank: "CHR '' '' \<notin> set w" by blast
  have step: "sublist w (a @ b)" if "sublist w (a @ CHR '' '' # b)" for a b
    using that blank by (rule sublist_across)
  from sub have
    "sublist w (lower (p_name p) @ CHR '' '' # (lower (p_category p) @ CHR '' '' #
       (lower (p_brand p) @ CHR '' '' # lower (p_description p))))"
    by (simp add: searchable_def lower_def lower_char_blank)
  then have "sublist w (lower (p_name p) @ (lower (p_category p) @ CHR '' '' #
       (lower (p_brand p) @ CHR '' '' # lower (p_description p))))"
    by (rule step)
  then have "sublist w ((lower (p_name p) @ lower (p_category p)) @ CHR '' '' #
       (lower (p_brand p) @ CHR '' '' # lower (p_description p)))"
    by simp
  then have "sublist w ((lower (p_name p) @ lower (p_category p)) @
       (lower (p_brand p) @ CHR '' '' # lower (p_description p)))"
    by (rule step)
  then have "sublist w ((lower (p_name p) @ lower (p_category p) @ lower (p_brand p)) @
       CHR '' '' # lower (p_description p))"
    by simp
  then have "sublist w ((lower (p_name p) @ lower (p_category p) @ lower (p_brand p)) @
       lower (p_description p))"
    by (rule step)
  then show ?thesis by (simp add: lower_def)
qed

text \<open>The sample catalog against three queries.\<close>

lemma sample_values: "map snd (PRODUCTS sample_catalogs) = [ac_001, tv_001]"
  by (simp add: sample_catalogs_def)

lemma sample_searchable:
  "searchable ac_001 = ''polar 12000 btu air conditioners polar inverter split unit''"
  "searchable tv_001 = ''vista 55 oled televisions vista 4k smart tv''"
  by (simp_all add: searchable_def ac_001_def tv_001_def str_eval)

lemma sample_category:
  "lower (p_category ac_001) = ''air conditioners''"
  "lower (p_category tv_001) = ''televisions''"
  by (simp_all add: ac_001_def tv_001_def str_eval)

lemma sample_lower:
  "lower ''Smart INVERTER'' = ''smart inverter''"
  "lower ''Vista polar'' = ''vista polar''"
  "lower ''TELEVISIONS'' = ''televisions''"
  "lower ''zzzznonexistentquery'' = ''zzzznonexistentquery''"
  by (simp_all add: str_eval)

lemmas sample_eval = product_matches_def sample_searchable sample_category sample_lower
  split_def isspace_def contains_iff_sublist [symmetric]

lemma sample_search_both:
  "filter (product_matches ''Smart INVERTER'' []) (map snd (PRODUCTS sample_catalogs)) =
     [ac_001, tv_001]"
  by (simp add: sample_values sample_eval)

lemma sample_search_category:
  "filter (product_matches ''Vista polar'' ''TELEVISIONS'') (map snd (PRODUCTS sample_catalogs)) =
     [tv_001]"
  by (simp add: sample_values sample_eval)

lemma sample_search_none:
  "filter (product_matches ''zzzznonexistentquery'' []) (map snd (PRODUCTS sample_catalogs)) = []"
  by (simp add: sample_values sample_eval)


section \<open>The accumulated text\<close>

lemma add_parts_concat: "add_parts ps acc = acc @ concat (List.map_filter part_text ps)"
  by (induction ps arbitrary: acc) (auto split: option.splits)

lemma fragments_Cons:
  "fragments (e # es) = List.map_filter part_text (event_parts e) @ fragments es"
  by (simp add: fragments_def)

lemma run_events_concat: "run_events es acc = acc @ concat (fragments es)"
proof (induction es arbitrary: acc)
  case Nil
  then show ?case by (simp add: fragments_def)
next
  case (Cons e es)
  show ?case
  proof (cases e)
    case (Event c)
    show ?thesis
    proof (cases c)
      case None
      with Event Cons show ?thesis
        by (simp add: fragments_Cons event_parts_def)
    next
      case (Some cont)
      obtain pso where cont: "cont = Content pso" by (cases cont)
      show ?thesis
      proof (cases pso)
        case None
        with Event Some cont Cons show ?thesis
          by (simp add: fragments_Cons event_parts_def)
      next
        case (Some ps)
        with Event \<open>c = Some cont\<close> cont Cons show ?thesis
          by (simp add: fragments_Cons event_parts_def add_parts_concat)
      qed
    qed
  qed
qed

lemma fallback_nonempty: "fallback \<noteq> []"
  by (simp add: fallback_def)


section \<open>The session loop: \<open>handle_turn\<close>\<close>

text \<open>
  C1, as the claim states it, fails: an agent that emits one text fragment holding a single
  blank makes \<open>get_agent_response\<close> (the \<open>handle_turn\<close> of the specification) return the
  empty string. The text is not empty, so the fallback is not taken, and trimming it
  leaves nothing.
\<close>

theorem get_agent_response_blank_counterexample:
  "fragments (blank_run ''web_user'' ''s1'' ''hello'') = ['' ''] \<and>
   get_agent_response blank_run ''s1'' ''hello'' = []"
  by (simp add: get_agent_response_def blank_run_def fragments_def event_parts_def
      strip_def isspace_def)

text \<open>
  C1, amended: for every session and utterance, \<open>handle_turn\<close> returns the fallback apology
  string when the text fragments emitted by the agent concatenate to the empty string, in
  particular when zero fragments were emitted, and otherwise returns the fragments
  concatenated in emission order and trimmed of leading and trailing whitespace. The
  result is not the empty string whenever the accumulated text is empty or has a
  character that is not whitespace.
\<close>

theorem get_agent_response_accumulates:
  "get_agent_response run_async session_id user_message =
     (if concat (fragments (run_async ''web_user'' session_id user_message)) = [] then fallback
      else strip (concat (fragments (run_async ''web_user'' session_id user_message))))
   \<and> (fragments (run_async ''web_user'' session_id user_message) = [] \<longrightarrow>
        get_agent_response run_async session_id user_message = fallback)
   \<and> (concat (fragments (run_async ''web_user'' session_id user_message)) = [] \<or>
        (\<exists>c \<in> set (concat (fragments (run_async ''web_user'' session_id user_message))).
           \<not> isspace c) \<longrightarrow>
        get_agent_response run_async session_id user_message \<noteq> [])"
  by (auto simp: get_agent_response_def run_events_concat Let_def fallback_nonempty strip_eq_Nil)

theorem get_agent_response_accumulates_witness:
  "fragments (silent_run ''web_user'' ''s1'' ''hello'') = [] \<and>
   get_agent_response silent_run ''s1'' ''hello'' = fallback \<and>
   fragments (talking_run ''web_user'' ''s1'' ''hello'') = ['' Hello'', [], '', world. ''] \<and>
   get_agent_response talking_run ''s1'' ''hello'' = ''Hello, world.''"
proof -
  have silent: "fragments (silent_run ''web_user'' ''s1'' ''hello'') = []"
    by (simp add: silent_run_def fragments_def event_parts_def)
  have talking:
    "fragments (talking_run ''web_user'' ''s1'' ''hello'') = ['' Hello'', [], '', world. '']"
    by (simp add: talking_run_def fragments_def event_parts_def)
  have trimmed: "strip '' Hello, world. '' = ''Hello, world.''"
    by (simp add: strip_def isspace_def)
  show ?thesis
    using get_agent_response_accumulates [of silent_run "''s1''" "''hello''"]
      get_agent_response_accumulates [of talking_run "''s1''" "''hello''"]
      silent talking trimmed
    by simp
qed


section \<open>The tool registry\<close>

subsection \<open>Searching\<close>

text \<open>
  C2: for every query \<open>q\<close> and category \<open>c\<close>, every record in the result set of
  \<open>search_products(q, c)\<close> is the summary of a product of the catalog whose category
  equals \<open>c\<close> case-insensitively whenever \<open>c\<close> is not empty, and of which the
  lower-cased concatenation of name, category, brand and description (joined by blanks
  as the code joins them, and joined directly as well) has a whitespace-delimited token
  of the lower-cased \<open>q\<close> as a substring. When no product of the catalog satisfies this,
  the result has status \<open>not_found\<close> and a message that is not empty.
\<close>

theorem search_products_results_match:
  "(\<forall>ps. map_of (search_products M q c) ''products'' = Some (VSummaries ps) \<longrightarrow>
      (\<forall>s \<in> set ps. \<exists>p \<in> set (map snd (PRODUCTS M)).
          s = summary_of p \<and>
          (c \<noteq> [] \<longrightarrow> lower (s_category s) = lower c) \<and>
          (\<exists>w \<in> set (split (lower q)).
              sublist w (lower (p_name p @ '' '' @ p_category p @ '' '' @ p_brand p @ '' '' @
                                p_description p)) \<and>
              sublist w (lower (p_name p @ p_category p @ p_brand p @ p_description p)))))
   \<and> ((\<forall>p \<in> set (map snd (PRODUCTS M)). \<not> product_matches q c p) \<longrightarrow>
        (\<exists>m. search_products M q c = [(''status'', VStr ''not_found''), (''message'', VStr m)] \<and>
             m \<noteq> []))"
proof (intro conjI allI impI ballI)
  fix ps s
  assume ps: "map_of (search_products M q c) ''products'' = Some (VSummaries ps)"
    and s: "s \<in> set ps"
  from ps have "ps = map summary_of (filter (product_matches q c) (map snd (PRODUCTS M)))"
    by (simp add: search_products_eq Let_def split: if_splits)
  with s obtain p where p: "p \<in> set (map snd (PRODUCTS M))" "product_matches q c p"
    and sp: "s = summary_of p"
    by auto
  from p(2) obtain w where w: "w \<in> set (split (lower q))" "sublist w (searchable p)"
    unfolding product_matches_def by blast
  from w have plain: "sublist w (lower (p_name p @ p_category p @ p_brand p @ p_description p))"
    by (rule token_in_fields)
  from p(2) sp have "c \<noteq> [] \<longrightarrow> lower (s_category s) = lower c"
    by (simp add: product_matches_def summary_of_def)
  with p(1) sp w plain
  show "\<exists>p \<in> set (map snd (PRODUCTS M)).
          s = summary_of p \<and>
          (c \<noteq> [] \<longrightarrow> lower (s_category s) = lower c) \<and>
          (\<exists>w \<in> set (split (lower q)).
              sublist w (lower (p_name p @ '' '' @ p_category p @ '' '' @ p_brand p @ '' '' @
                                p_description p)) \<and>
              sublist w (lower (p_name p @ p_category p @ p_brand p @ p_description p)))"
    unfolding searchable_def by blast
next
  assume "\<forall>p \<in> set (map snd (PRODUCTS M)). \<not> product_matches q c p"
  then have "filter (product_matches q c) (map snd (PRODUCTS M)) = []"
    by (simp add: filter_empty_conv)
  then show "\<exists>m. search_products M q c =
                  [(''status'', VStr ''not_found''), (''message'', VStr m)] \<and> m \<noteq> []"
    by (simp add: search_products_eq)
qed

theorem search_products_results_match_witness:
  "map_of (search_products sample_catalogs ''Vista polar'' ''TELEVISIONS'') ''products'' =
     Some (VSummaries [summary_of tv_001]) \<and>
   lower (s_category (summary_of tv_001)) = lower ''TELEVISIONS'' \<and>
   (\<exists>w \<in> set (split (lower ''Vista polar'')).
      sublist w (lower (p_name tv_001 @ p_category tv_001 @ p_brand tv_001 @
                        p_description tv_001))) \<and>
   filter (product_matches ''zzzznonexistentquery'' []) (map snd (PRODUCTS sample_catalogs)) = [] \<and>
   map_of (search_products sample_catalogs ''zzzznonexistentquery'' []) ''status'' =
     Some (VStr ''not_found'')"
proof -
  have found:
    "map_of (search_products sample_catalogs ''Vista polar'' ''TELEVISIONS'') ''products'' =
       Some (VSummaries [summary_of tv_001])"
    by (simp add: search_products_eq sample_search_category)
  have none:
    "filter (product_matches ''zzzznonexistentquery'' []) (map snd (PRODUCTS sample_catalogs)) = []"
    by (rule sample_search_none)
  then have no_match:
    "\<forall>p \<in> set (map snd (PRODUCTS sample_catalogs)).
       \<not> product_matches ''zzzznonexistentquery'' [] p"
    by (simp add: filter_empty_conv)
  have distinct_summaries: "summary_of tv_001 \<noteq> summary_of ac_001"
    by (simp add: summary_of_def tv_001_def ac_001_def)
  from search_products_results_match [of sample_catalogs "''Vista polar''" "''TELEVISIONS''"]
    found
  have "\<exists>p \<in> set (map snd (PRODUCTS sample_catalogs)).
          summary_of tv_001 = summary_of p \<and>
          (''TELEVISIONS'' \<noteq> [] \<longrightarrow>
             lower (s_category (summary_of tv_001)) = lower ''TELEVISIONS'') \<and>
          (\<exists>w \<in> set (split (lower ''Vista polar'')).
              sublist w (lower (p_name p @ '' '' @ p_category p @ '' '' @ p_brand p @ '' '' @
                                p_description p)) \<and>
              sublist w (lower (p_name p @ p_category p @ p_brand p @ p_description p)))"
    by simp
  with distinct_summaries have first:
    "lower (s_category (summary_of tv_001)) = lower ''TELEVISIONS'' \<and>
     (\<exists>w \<in> set (split (lower ''Vista polar'')).
        sublist w (lower (p_name tv_001 @ p_category tv_001 @ p_brand tv_001 @
                          p_description tv_001)))"
    by (auto simp: sample_values)
  from search_products_results_match [of sample_catalogs "''zzzznonexistentquery''" "[]"]
    no_match
  have "map_of (search_products sample_catalogs ''zzzznonexistentquery'' []) ''status'' =
          Some (VStr ''not_found'')"
    by auto
  with found first none show ?thesis by simp
qed

text \<open>
  C7: for every query and category, the product summaries of a \<open>found\<close> result of
  \<open>search_products\<close> are the summaries of the matching products in the order in which the
  catalog iterates over them: the list is a subsequence of the catalog's, and nothing
  ranks or reorders it.
\<close>

theorem search_products_catalog_order:
  "map_of (search_products M q c) ''status'' = Some (VStr ''found'') \<Longrightarrow>
   \<exists>ps. map_of (search_products M q c) ''products'' = Some (VSummaries ps) \<and>
        ps = map summary_of (filter (product_matches q c) (map snd (PRODUCTS M))) \<and>
        subseq ps (map summary_of (map snd (PRODUCTS M)))"
proof -
  assume found: "map_of (search_products M q c) ''status'' = Some (VStr ''found'')"
  have "subseq (map summary_of (filter (product_matches q c) (map snd (PRODUCTS M))))
          (map summary_of (map snd (PRODUCTS M)))"
    by (intro subseq_map subseq_filter_left)
  moreover from found have
    "map_of (search_products M q c) ''products'' =
       Some (VSummaries (map summary_of (filter (product_matches q c) (map snd (PRODUCTS M)))))"
    by (simp add: search_products_eq Let_def split: if_splits)
  ultimately show ?thesis by blast
qed

theorem search_products_catalog_order_witness:
  "map_of (search_products sample_catalogs ''Smart INVERTER'' []) ''status'' =
     Some (VStr ''found'') \<and>
   map_of (search_products sample_catalogs ''Smart INVERTER'' []) ''products'' =
     Some (VSummaries [summary_of ac_001, summary_of tv_001]) \<and>
   subseq [summary_of ac_001, summary_of tv_001]
     (map summary_of (map snd (PRODUCTS sample_catalogs)))"
proof -
  have found:
    "map_of (search_products sample_catalogs ''Smart INVERTER'' []) ''status'' =
       Some (VStr ''found'')"
    by (simp add: search_products_eq sample_search_both)
  from search_products_catalog_order [OF found] found show ?thesis
    by (auto simp: sample_search_both)
qed

text \<open>
  C9: for every category, \<open>search_products\<close> with a query that is empty or has only
  whitespace in it returns status \<open>not_found\<close>, whatever the catalog holds: no token
  means no match.
\<close>

theorem search_products_blank_query:
  "\<forall>ch \<in> set q. isspace ch \<Longrightarrow>
   map_of (search_products M q c) ''status'' = Some (VStr ''not_found'')"
  by (simp add: search_products_eq Let_def product_matches_def split_blank)

theorem search_products_blank_query_witness:
  "list_all isspace ''  '' \<and> lower (p_category tv_001) = lower ''Televisions'' \<and>
   map_of (search_products sample_catalogs ''  '' ''Televisions'') ''status'' =
     Some (VStr ''not_found'') \<and>
   map_of (search_products sample_catalogs [] []) ''status'' = Some (VStr ''not_found'')"
proof -
  have blank: "\<forall>ch \<in> set ''  ''. isspace ch" by (simp add: isspace_def)
  have empty: "\<forall>ch \<in> set []. isspace ch" by simp
  have cat: "lower (p_category tv_001) = lower ''Televisions''"
    by (simp add: tv_001_def str_eval)
  from search_products_blank_query [OF blank, of sample_catalogs "''Televisions''"]
    search_products_blank_query [OF empty, of sample_catalogs "[]"] blank cat
  show ?thesis by (simp add: list_all_iff)
qed

text \<open>
  C10: whenever \<open>search_products\<close> returns status \<open>found\<close>, the result has a count equal
  to the length of its products list, and that list is not empty.
\<close>

theorem search_products_count:
  "map_of (search_products M q c) ''status'' = Some (VStr ''found'') \<Longrightarrow>
   \<exists>ps. map_of (search_products M q c) ''products'' = Some (VSummaries ps) \<and>
        map_of (search_products M q c) ''count'' = Some (VInt (int (length ps))) \<and> ps \<noteq> []"
  by (simp add: search_products_eq Let_def split: if_splits)

theorem search_products_count_witness:
  "map_of (search_products sample_catalogs ''Smart INVERTER'' []) ''status'' =
     Some (VStr ''found'') \<and>
   map_of (search_products sample_catalogs ''Smart INVERTER'' []) ''count'' = Some (VInt 2) \<and>
   map_of (search_products sample_catalogs ''Smart INVERTER'' []) ''products'' =
     Some (VSummaries [summary_of ac_001, summary_of tv_001])"
proof -
  have found:
    "map_of (search_products sample_catalogs ''Smart INVERTER'' []) ''status'' =
       Some (VStr ''found'')"
    by (simp add: search_products_eq sample_search_both)
  have products:
    "map_of (search_products sample_catalogs ''Smart INVERTER'' []) ''products'' =
       Some (VSummaries [summary_of ac_001, summary_of tv_001])"
    by (simp add: search_products_eq sample_search_both)
  from search_products_count [OF found] found products show ?thesis by auto
qed


subsection \<open>Looking products up\<close>

text \<open>
  C4: for every product identifier \<open>p\<close> that is a key of the Products catalog,
  \<open>get_product_details(p)\<close>, \<open>get_product_details(lower(p))\<close> and
  \<open>get_product_details(upper(p))\<close> return the same result: status \<open>found\<close> with the full
  product record of \<open>p\<close>. The catalog stores its identifiers in upper case.
\<close>

theorem get_product_details_case_insensitive:
  assumes keys: "keys_upper (PRODUCTS M)"
    and p: "map_of (PRODUCTS M) p = Some product"
  shows "get_product_details M p = [(''status'', VStr ''found''), (''product'', VProduct product)]
       \<and> get_product_details M (lower p) = get_product_details M p
       \<and> get_product_details M (upper p) = get_product_details M p"
proof -
  from p have "p \<in> set (map fst (PRODUCTS M))" by (rule map_of_key)
  with keys have "upper p = p" unfolding keys_upper_def by blast
  with p show ?thesis
    by (simp add: get_product_details_def upper_lower upper_upper)
qed

theorem get_product_details_case_insensitive_witness:
  "keys_upper (PRODUCTS sample_catalogs) \<and>
   map_of (PRODUCTS sample_catalogs) ''AC-001'' = Some ac_001 \<and>
   lower ''AC-001'' = ''ac-001'' \<and>
   get_product_details sample_catalogs ''ac-001'' =
     [(''status'', VStr ''found''), (''product'', VProduct ac_001)]"
proof -
  have key: "map_of (PRODUCTS sample_catalogs) ''AC-001'' = Some ac_001"
    by (simp add: sample_catalogs_def)
  have low: "lower ''AC-001'' = ''ac-001''" by (simp add: str_eval)
  from get_product_details_case_insensitive [OF sample_keys_upper key] low
  show ?thesis using sample_keys_upper key by simp
qed

text \<open>
  C5: for every product identifier present in the catalog (whatever its case),
  \<open>redirect_to_product_page\<close> with an action that equals \<open>buy\<close> case-insensitively returns
  status \<open>success\<close>, the URL made of the base path, \<open>/\<close>, the upper-cased identifier and
  \<open>/checkout\<close>, and the action label \<open>Purchase\<close>; with any other action, and with the
  default one, it returns status \<open>success\<close>, the URL made of the base path, \<open>/\<close> and the
  upper-cased identifier, and the label \<open>View\<close>; for an identifier absent from the catalog
  it returns \<open>not_found\<close>. The catalog stores its identifiers in upper case.
\<close>

theorem redirect_to_product_page_url:
  assumes keys: "keys_upper (PRODUCTS M)"
  shows "(has_key_ignoring_case (PRODUCTS M) product_id \<longrightarrow>
            (\<exists>product. map_of (PRODUCTS M) (upper product_id) = Some product \<and>
               (same_ignoring_case action ''buy'' \<longrightarrow>
                  redirect_to_product_page M product_id action =
                    [(''status'', VStr ''success''), (''action'', VStr ''Purchase''),
                     (''product_name'', VStr (p_name product)),
                     (''url'', VStr (base_url @ ''/'' @ upper product_id @ ''/checkout'')),
                     (''in_stock'', VBool (p_in_stock product))]) \<and>
               (\<not> same_ignoring_case action ''buy'' \<longrightarrow>
                  redirect_to_product_page M product_id action =
                    [(''status'', VStr ''success''), (''action'', VStr ''View''),
                     (''product_name'', VStr (p_name product)),
                     (''url'', VStr (base_url @ ''/'' @ upper product_id)),
                     (''in_stock'', VBool (p_in_stock product))]) \<and>
               call_tool M (Redirect_to_product_page product_id None) =
                 Inr [(''status'', VStr ''success''), (''action'', VStr ''View''),
                      (''product_name'', VStr (p_name product)),
                      (''url'', VStr (base_url @ ''/'' @ upper product_id)),
                      (''in_stock'', VBool (p_in_stock product))]))
       \<and> (\<not> has_key_ignoring_case (PRODUCTS M) product_id \<longrightarrow>
            map_of (redirect_to_product_page M product_id action) ''status'' =
              Some (VStr ''not_found''))"
proof -
  have view: "lower ''view'' \<noteq> ''buy''" by (simp add: lower_def lower_char_def)
  show ?thesis
    unfolding has_key_upper [OF keys] same_ignoring_case_buy
    by (auto simp: redirect_to_product_page_def view)
qed

theorem redirect_to_product_page_url_witness:
  "keys_upper (PRODUCTS sample_catalogs) \<and>
   has_key_ignoring_case (PRODUCTS sample_catalogs) ''ac-001'' \<and>
   same_ignoring_case ''BUY'' ''buy'' \<and>
   redirect_to_product_page sample_catalogs ''ac-001'' ''BUY'' =
     [(''status'', VStr ''success''), (''action'', VStr ''Purchase''),
      (''product_name'', VStr ''Polar 12000 BTU''),
      (''url'', VStr ''https://shop-demo.example/products/AC-001/checkout''),
      (''in_stock'', VBool True)] \<and>
   call_tool sample_catalogs (Redirect_to_product_page ''ac-001'' None) =
     Inr [(''status'', VStr ''success''), (''action'', VStr ''View''),
          (''product_name'', VStr ''Polar 12000 BTU''),
          (''url'', VStr ''https://shop-demo.example/products/AC-001''),
          (''in_stock'', VBool True)] \<and>
   \<not> has_key_ignoring_case (PRODUCTS sample_catalogs) ''AC-999'' \<and>
   map_of (redirect_to_product_page sample_catalogs ''AC-999'' ''view'') ''status'' =
     Some (VStr ''not_found'')"
proof -
  have up: "upper ''ac-001'' = ''AC-001''" "upper ''AC-999'' = ''AC-999''"
    by (simp_all add: str_eval)
  have present: "has_key_ignoring_case (PRODUCTS sample_catalogs) ''ac-001''"
    unfolding has_key_upper [OF sample_keys_upper] up by (simp add: sample_catalogs_def)
  have absent: "\<not> has_key_ignoring_case (PRODUCTS sample_catalogs) ''AC-999''"
    unfolding has_key_upper [OF sample_keys_upper] up by (simp add: sample_catalogs_def)
  have buy: "same_ignoring_case ''BUY'' ''buy''"
    by (simp add: same_ignoring_case_def str_eval)
  have prod: "map_of (PRODUCTS sample_catalogs) ''AC-001'' = Some ac_001"
    by (simp add: sample_catalogs_def)
  have fields: "p_name ac_001 = ''Polar 12000 BTU''" "p_in_stock ac_001 = True"
    by (simp_all add: ac_001_def)
  from redirect_to_product_page_url [OF sample_keys_upper, of "''ac-001''" "''BUY''"]
    redirect_to_product_page_url [OF sample_keys_upper, of "''AC-999''" "''view''"]
    present absent buy
  show ?thesis by (simp add: up prod fields base_url_def sample_keys_upper)
qed

subsection \<open>Routing to a department\<close>

text \<open>
  C6: for every topic and reason, \<open>redirect_to_human_support\<close> returns status
  \<open>redirected\<close> with the reason, a department record and the message formatted from
  the name, phone, email and hours of that record; the department is the one whose key
  equals the topic case-insensitively when there is one, and the \<open>general\<close> department
  otherwise, so the status is never \<open>not_found\<close>. The departments are keyed in lower
  case and \<open>general\<close> is one of the keys.
\<close>

theorem redirect_to_human_support_department:
  assumes general: "map_of (SUPPORT_DEPARTMENTS M) ''general'' = Some general"
    and keys: "keys_lower (SUPPORT_DEPARTMENTS M)"
  shows "\<exists>dept. redirect_to_human_support M topic reason =
            Inr [(''status'', VStr ''redirected''), (''reason'', VStr reason),
                 (''department'', VDepartment dept),
                 (''message'', VStr (''I'm connecting you with our '' @ d_department dept @
                     '' team. You can reach them at '' @ d_phone dept @ '' or '' @
                     d_email dept @ '' ('' @ d_hours dept @ '').''))]
          \<and> (\<forall>k d. map_of (SUPPORT_DEPARTMENTS M) k = Some d \<and> same_ignoring_case k topic
                \<longrightarrow> dept = d)
          \<and> (\<not> has_key_ignoring_case (SUPPORT_DEPARTMENTS M) topic \<longrightarrow> dept = general)"
proof -
  let ?D = "SUPPORT_DEPARTMENTS M"
  define dept where "dept = (case map_of ?D (lower topic) of Some d \<Rightarrow> d | None \<Rightarrow> general)"
  have result: "redirect_to_human_support M topic reason =
            Inr [(''status'', VStr ''redirected''), (''reason'', VStr reason),
                 (''department'', VDepartment dept),
                 (''message'', VStr (''I'm connecting you with our '' @ d_department dept @
                     '' team. You can reach them at '' @ d_phone dept @ '' or '' @
                     d_email dept @ '' ('' @ d_hours dept @ '').''))]"
    by (simp add: redirect_to_human_support_def support_message_def general dept_def Let_def)
  have known: "dept = d" if kd: "map_of ?D k = Some d" "same_ignoring_case k topic" for k d
  proof -
    from kd(1) have "k \<in> set (map fst ?D)" by (rule map_of_key)
    with keys have "lower k = k" unfolding keys_lower_def by blast
    with kd(2) have "k = lower topic" by (simp add: same_ignoring_case_def)
    with kd(1) show "dept = d" by (simp add: dept_def)
  qed
  have unknown: "dept = general" if "\<not> has_key_ignoring_case ?D topic"
  proof -
    from that have "map_of ?D (lower topic) = None" by (simp add: has_key_lower [OF keys])
    then show "dept = general" by (simp add: dept_def)
  qed
  from result known unknown show ?thesis by blast
qed

theorem redirect_to_human_support_department_witness:
  "map_of (SUPPORT_DEPARTMENTS sample_catalogs) ''general'' = Some general_dept \<and>
   keys_lower (SUPPORT_DEPARTMENTS sample_catalogs) \<and>
   \<not> has_key_ignoring_case (SUPPORT_DEPARTMENTS sample_catalogs) ''unknown-topic-xyz'' \<and>
   redirect_to_human_support sample_catalogs ''unknown-topic-xyz'' ''test'' =
     Inr [(''status'', VStr ''redirected''), (''reason'', VStr ''test''),
          (''department'', VDepartment general_dept),
          (''message'', VStr (''I'm connecting you with our Customer Care team. '' @
                 ''You can reach them at 555-0100 or help@shop-demo.example (Mon-Sun).''))] \<and>
   map_of (SUPPORT_DEPARTMENTS sample_catalogs) ''returns'' = Some returns_dept \<and>
   same_ignoring_case ''returns'' ''Returns'' \<and>
   redirect_to_human_support sample_catalogs ''Returns'' ''refund'' =
     Inr [(''status'', VStr ''redirected''), (''reason'', VStr ''refund''),
          (''department'', VDepartment returns_dept),
          (''message'', VStr (''I'm connecting you with our Returns team. '' @
                 ''You can reach them at 555-0101 or returns@shop-demo.example (Mon-Fri).''))]"
proof -
  have low: "lower ''unknown-topic-xyz'' = ''unknown-topic-xyz''" "lower ''Returns'' = ''returns''"
    "lower ''returns'' = ''returns''"
    by (simp_all add: str_eval)
  have absent:
    "\<not> has_key_ignoring_case (SUPPORT_DEPARTMENTS sample_catalogs) ''unknown-topic-xyz''"
    unfolding has_key_lower [OF sample_keys_lower] low by (simp add: sample_catalogs_def)
  have returns: "map_of (SUPPORT_DEPARTMENTS sample_catalogs) ''returns'' = Some returns_dept"
    by (simp add: sample_catalogs_def)
  have same: "same_ignoring_case ''returns'' ''Returns''"
    by (simp add: same_ignoring_case_def low)
  note fields = general_dept_def returns_dept_def
  from redirect_to_human_support_department
    [OF sample_general sample_keys_lower, of "''unknown-topic-xyz''" "''test''"] absent
  have unknown:
    "redirect_to_human_support sample_catalogs ''unknown-topic-xyz'' ''test'' =
       Inr [(''status'', VStr ''redirected''), (''reason'', VStr ''test''),
            (''department'', VDepartment general_dept),
            (''message'', VStr (''I'm connecting you with our Customer Care team. '' @
                 ''You can reach them at 555-0100 or help@shop-demo.example (Mon-Sun).''))]"
    by (auto simp: fields)
  from redirect_to_human_support_department
    [OF sample_general sample_keys_lower, of "''Returns''" "''refund''"]
  obtain dept where
    r: "redirect_to_human_support sample_catalogs ''Returns'' ''refund'' =
          Inr [(''status'', VStr ''redirected''), (''reason'', VStr ''refund''),
               (''department'', VDepartment dept),
               (''message'', VStr (''I'm connecting you with our '' @ d_department dept @
                     '' team. You can reach them at '' @ d_phone dept @ '' or '' @
                     d_email dept @ '' ('' @ d_hours dept @ '').''))]"
    and k: "\<forall>k d. map_of (SUPPORT_DEPARTMENTS sample_catalogs) k = Some d \<and>
                  same_ignoring_case k ''Returns'' \<longrightarrow> dept = d"
    by blast
  from k returns same have "dept = returns_dept" by blast
  with r have known:
    "redirect_to_human_support sample_catalogs ''Returns'' ''refund'' =
       Inr [(''status'', VStr ''redirected''), (''reason'', VStr ''refund''),
            (''department'', VDepartment returns_dept),
            (''message'', VStr (''I'm connecting you with our Returns team. '' @
                 ''You can reach them at 555-0101 or returns@shop-demo.example (Mon-Fri).''))]"
    by (simp add: fields)
  from sample_general sample_keys_lower absent unknown returns same known
  show ?thesis by simp
qed

text \<open>Without the key \<open>general\<close> the subscript raises, whatever the topic is.\<close>

lemma redirect_to_human_support_KeyError:
  "map_of (SUPPORT_DEPARTMENTS M) ''general'' = None \<Longrightarrow>
   redirect_to_human_support M topic reason = Inl (KeyError ''general'')"
  by (simp add: redirect_to_human_support_def)

subsection \<open>All five tools\<close>

text \<open>
  C3: every operation of the registry (\<open>search_products\<close>, \<open>get_product_details\<close>,
  \<open>check_order_status\<close>, \<open>redirect_to_human_support\<close>, \<open>redirect_to_product_page\<close>) is total
  on string arguments: it raises no exception and returns one result record whose status
  is one of \<open>found\<close>, \<open>not_found\<close>, \<open>success\<close>, \<open>redirected\<close>, provided that the catalogs
  are well-formed (their entries are the records of the data model) and that
  \<open>SUPPORT_DEPARTMENTS\<close> has the key \<open>general\<close>.
\<close>

theorem call_tool_total:
  assumes "''general'' \<in> set (map fst (SUPPORT_DEPARTMENTS M))"
  shows "\<exists>r s. call_tool M c = Inr r \<and> map_of r ''status'' = Some (VStr s) \<and>
               s \<in> {''found'', ''not_found'', ''success'', ''redirected''}"
proof -
  from assms obtain g where g: "map_of (SUPPORT_DEPARTMENTS M) ''general'' = Some g"
    by (metis map_of_eq_None_iff not_Some_eq set_map)
  show ?thesis
  proof (cases c)
    case (Search_products q cat)
    then show ?thesis by (simp add: search_products_def Let_def)
  next
    case (Get_product_details pid)
    then show ?thesis by (simp add: get_product_details_def split: option.split)
  next
    case (Check_order_status oid)
    then show ?thesis
      by (simp add: check_order_status_def order_not_found_def split: option.split)
  next
    case (Redirect_to_human_support topic reason)
    then show ?thesis using g by (simp add: redirect_to_human_support_def Let_def)
  next
    case (Redirect_to_product_page pid action)
    then show ?thesis
      by (simp add: redirect_to_product_page_def Let_def split: option.split prod.split)
  qed
qed

theorem call_tool_total_witness:
  "''general'' \<in> set (map fst (SUPPORT_DEPARTMENTS sample_catalogs)) \<and>
   call_tool sample_catalogs (Check_order_status ''ord-10001'') =
     Inr [(''status'', VStr ''found''), (''order'', VOrder [(''status'', JStr ''shipped'')])] \<and>
   (\<exists>r s. call_tool sample_catalogs (Check_order_status ''ord-10001'') = Inr r \<and>
          map_of r ''status'' = Some (VStr s) \<and>
          s \<in> {''found'', ''not_found'', ''success'', ''redirected''})"
proof -
  have general: "''general'' \<in> set (map fst (SUPPORT_DEPARTMENTS sample_catalogs))"
    by (simp add: sample_catalogs_def)
  have up: "upper ''ord-10001'' = ''ORD-10001''" by (simp add: str_eval)
  have order:
    "call_tool sample_catalogs (Check_order_status ''ord-10001'') =
       Inr [(''status'', VStr ''found''), (''order'', VOrder [(''status'', JStr ''shipped'')])]"
    by (simp add: check_order_status_def up sample_catalogs_def)
  from call_tool_total [OF general, of "Check_order_status ''ord-10001''"] general order
  show ?thesis by simp
qed

text \<open>Run on the globals, each tool returns what the function of the catalogs returns.\<close>

lemma run_dict_get [simp]: "run_state (dict_get d k) G = (map_of (d G) k, G)"
  by (simp add: dict_get_def)

lemma run_dict_values [simp]: "run_state (dict_values d) G = (map snd (d G), G)"
  by (simp add: dict_values_def)

lemma run_search_products:
  "run_state (search_products_py query category) G = (search_products G query category, G)"
  by (simp add: search_products_py_def search_products_def Let_def)

lemma run_get_product_details:
  "run_state (get_product_details_py product_id) G = (get_product_details G product_id, G)"
  by (simp add: get_product_details_py_def get_product_details_def)

lemma run_check_order_status:
  "run_state (check_order_status_py order_id) G = (check_order_status G order_id, G)"
  by (simp add: check_order_status_py_def check_order_status_def)

lemma run_redirect_to_human_support:
  "run_state (redirect_to_human_support_py topic reason) G =
     (redirect_to_human_support G topic reason, G)"
  by (simp add: redirect_to_human_support_py_def redirect_to_human_support_def
      dict_subscript_def dict_get_default_def Let_def split: option.split)

lemma run_redirect_to_product_page:
  "run_state (redirect_to_product_page_py product_id action) G =
     (redirect_to_product_page G product_id action, G)"
  by (simp add: redirect_to_product_page_py_def redirect_to_product_page_def)

lemma run_call_tool: "run_state (call_tool_py c) G = (call_tool G c, G)"
  by (cases c)
     (simp_all add: run_search_products run_get_product_details run_check_order_status
        run_redirect_to_human_support run_redirect_to_product_page)

text \<open>
  C8: calling any of the five operations twice with the same arguments gives the same
  result in both calls, and no state is changed between them: run one after the other on
  the module's dictionaries, the two calls return the same value, which depends on the
  arguments and the dictionaries only, and the dictionaries are afterwards what they were
  before.
\<close>

theorem call_twice_same:
  "run_state (call_tool_py c) G = (call_tool G c, G) \<and>
   run_state (call_twice c) G = ((call_tool G c, call_tool G c), G)"
  by (simp add: call_twice_def run_call_tool)

theorem call_twice_same_witness:
  "run_state (call_twice (Get_product_details ''ac-001'')) sample_catalogs =
     ((Inr [(''status'', VStr ''found''), (''product'', VProduct ac_001)],
       Inr [(''status'', VStr ''found''), (''product'', VProduct ac_001)]), sample_catalogs)"
proof -
  have up: "upper ''ac-001'' = ''AC-001''" by (simp add: str_eval)
  have "call_tool sample_catalogs (Get_product_details ''ac-001'') =
          Inr [(''status'', VStr ''found''), (''product'', VProduct ac_001)]"
    by (simp add: get_product_details_def up sample_catalogs_def)
  with call_twice_same [of "Get_product_details ''ac-001''" sample_catalogs]
  show ?thesis by simp
qed

end
